theory Spec2Isabelle
  imports Complex_Main
begin

section \<open>The Metropolis sampler of the Bayesian tutorial notebook\<close>

text \<open>
  The notebook \<^verbatim>\<open>posts/a-bayesian-tutorial-in-python-part-II.ipynb\<close> defines three
  functions, \<^verbatim>\<open>mcmc\<close>, \<^verbatim>\<open>get_log_lik\<close> and \<^verbatim>\<open>get_log_prior\<close>. They are embedded
  below. Conventions of the embedding:

  \<^item> NumPy's 64-bit floats are idealised as \<^typ>\<open>real\<close>: rounding, overflow of
    \<^verbatim>\<open>np.exp\<close> and infinities are outside the model. So are the order in which
    \<^verbatim>\<open>np.sum\<close> rounds its partial sums, and a ratio that overflow or a NaN observation
    turns into NaN. The one float value that the code itself writes down, \<^verbatim>\<open>np.nan\<close>
    (the initial fill of the trace), is kept: a cell of the trace is a
    \<^typ>\<open>real option\<close> and \<open>None\<close> is NaN.
  \<^item> The process-wide NumPy random source is an explicit state of type \<open>'g\<close>, threaded
    through the run. What NumPy does with it is not repository code, so the two draws the
    sampler needs are parameters, collected in the record \<open>rng\<close>.
  \<^item> A Python exception is a value \<open>Inl e\<close> of the result.
  \<^item> \<^verbatim>\<open>print(f'{data.size} data points')\<close> writes to the console and has no
    bearing on the returned trace; \<^verbatim>\<open>data.reshape(1, -1)\<close> only turns the
    observations into one row, over which \<^verbatim>\<open>np.sum(..., axis=1)\<close> sums. The data is
    therefore the list of observations.
\<close>

subsection \<open>Exceptions and array accesses\<close>

datatype error = ValueError | IndexError

type_synonym cell = "real option"

text \<open>\<^verbatim>\<open>np.nan * np.ones(n)\<close>: NumPy refuses a negative dimension with a ValueError.\<close>

definition nan_ones :: "int \<Rightarrow> error + cell list" where
  "nan_ones n = (if n < 0 then Inl ValueError else Inr (replicate (nat n) None))"

text \<open>
  \<^verbatim>\<open>a[k]\<close> and \<^verbatim>\<open>a[k] = v\<close> on a one-dimensional array: an index below zero counts
  from the end, and an index outside \<open>-len \<dots> len - 1\<close> raises IndexError.
\<close>

definition getitem :: "cell list \<Rightarrow> int \<Rightarrow> error + cell" where
  "getitem a k =
     (if 0 \<le> k \<and> k < int (length a) then Inr (a ! nat k)
      else if k < 0 \<and> - int (length a) \<le> k then Inr (a ! nat (int (length a) + k))
      else Inl IndexError)"

definition setitem :: "cell list \<Rightarrow> int \<Rightarrow> cell \<Rightarrow> error + cell list" where
  "setitem a k v =
     (if 0 \<le> k \<and> k < int (length a) then Inr (a[nat k := v])
      else if k < 0 \<and> - int (length a) \<le> k then Inr (a[nat (int (length a) + k) := v])
      else Inl IndexError)"

subsection \<open>The random source and the SciPy distributions\<close>

text \<open>
  The random source: \<open>standard_normal\<close> returns a standard normal variate and the next
  state, \<open>random_sample\<close> a uniform variate of \<open>[0, 1)\<close> and the next state.
\<close>

record 'g rng =
  standard_normal :: "'g \<Rightarrow> real \<times> 'g"
  random_sample :: "'g \<Rightarrow> real \<times> 'g"

text \<open>
  Modelled from the spec: \<^verbatim>\<open>scipy.stats.norm.rvs\<close> and \<^verbatim>\<open>scipy.stats.uniform.rvs\<close> are
  library code, absent from the repository. The spec describes them as a draw "from a
  Gaussian centered at the previous chain value with a fixed proposal standard deviation"
  and "a uniform random value in [0, 1)". Both are location-scale families: one variate
  of the standard distribution is taken from the source, multiplied by \<^verbatim>\<open>scale\<close> and
  shifted by \<^verbatim>\<open>loc\<close>.
\<close>

definition norm_rvs :: "'g rng \<Rightarrow> real \<Rightarrow> real \<Rightarrow> 'g \<Rightarrow> real \<times> 'g" where
  "norm_rvs R loc scale g = (case standard_normal R g of (z, g') \<Rightarrow> (z * scale + loc, g'))"

definition uniform_rvs :: "'g rng \<Rightarrow> real \<Rightarrow> real \<Rightarrow> 'g \<Rightarrow> real \<times> 'g" where
  "uniform_rvs R loc scale g = (case random_sample R g of (v, g') \<Rightarrow> (v * scale + loc, g'))"

text \<open>
  Modelled from the spec: \<^verbatim>\<open>scipy.stats.norm.logpdf\<close> is library code, absent from the
  repository. The spec names it the Gaussian log-density; it is the logarithm of
  \<open>norm_pdf\<close> below, written the way SciPy computes it (standardise, take the log-density
  of the standard normal, subtract the log of the scale). The sampler only calls it with
  the scales \<open>0.75\<close> and \<open>1\<close>.
\<close>

definition norm_logpdf :: "real \<Rightarrow> real \<Rightarrow> real \<Rightarrow> real" where
  "norm_logpdf x loc scale = - (((x - loc) / scale)\<^sup>2) / 2 - ln (sqrt (2 * pi)) - ln scale"

definition norm_pdf :: "real \<Rightarrow> real \<Rightarrow> real \<Rightarrow> real" where
  "norm_pdf x loc scale = exp (- (((x - loc) / scale)\<^sup>2) / 2) / (sqrt (2 * pi) * scale)"

subsection \<open>\<^verbatim>\<open>get_log_lik\<close> and \<^verbatim>\<open>get_log_prior\<close>\<close>

text \<open>
  The parameter dictionaries are built by \<^verbatim>\<open>dict(\<mu>=..., \<sigma>=...)\<close> and read at the keys
  \<^verbatim>\<open>'\<mu>'\<close> and \<^verbatim>\<open>'\<sigma>'\<close> only: a record with these two fields.
\<close>

record par_dict =
  par_\<mu> :: real
  par_\<sigma> :: real

definition get_log_lik :: "real list \<Rightarrow> par_dict \<Rightarrow> real" where
  "get_log_lik data param_dict =
     sum_list (map (\<lambda>x. norm_logpdf x (par_\<mu> param_dict) (par_\<sigma> param_dict)) data)"

text \<open>The keyword arguments \<^verbatim>\<open>loc=1, scale=1\<close> are defaults; \<^verbatim>\<open>mcmc\<close> leaves them alone.\<close>

definition get_log_prior :: "par_dict \<Rightarrow> real \<Rightarrow> real \<Rightarrow> real" where
  "get_log_prior par_dict loc scale = norm_logpdf (par_\<mu> par_dict) loc scale"

subsection \<open>\<^verbatim>\<open>mcmc\<close>\<close>

text \<open>
  The loop body in two parts. \<open>mcmc_ratio\<close> is the block from \<^verbatim>\<open>prop_par_dict = ...\<close> to
  \<^verbatim>\<open>ratio = np.exp(log_prob_prop - log_prob_curr)\<close>, as a function of the local
  variables it reads.
\<close>

definition mcmc_ratio :: "real list \<Rightarrow> real \<Rightarrow> real \<Rightarrow> real \<Rightarrow> real" where
  "mcmc_ratio data \<sigma> proposed_\<mu> prev_\<mu> =
     (let prop_par_dict = \<lparr>par_\<mu> = proposed_\<mu>, par_\<sigma> = \<sigma>\<rparr>;
          curr_par_dict = \<lparr>par_\<mu> = prev_\<mu>, par_\<sigma> = \<sigma>\<rparr>;
          log_prob_prop = get_log_lik data prop_par_dict + get_log_prior prop_par_dict 1 1;
          log_prob_curr = get_log_lik data curr_par_dict + get_log_prior curr_par_dict 1 1
      in exp (log_prob_prop - log_prob_curr))"

text \<open>
  \<open>mcmc_iter\<close> is one pass of the body at index \<open>i\<close>, on the state \<open>(trace_\<mu>, g)\<close> of the
  trace and the random source. The entry \<^verbatim>\<open>trace_\<mu>[i-1]\<close> is read first. If it is NaN,
  the proposal, both log-probabilities and the ratio are NaN as well; every comparison
  with NaN is false, so the uniform variate is drawn, \<^verbatim>\<open>uniform > ratio\<close> fails and the
  NaN proposal is stored. Otherwise the body runs on real numbers. The rejecting branch
  reads \<^verbatim>\<open>trace_\<mu>[i-1]\<close> a second time.
\<close>

definition mcmc_iter ::
  "'g rng \<Rightarrow> real list \<Rightarrow> real \<Rightarrow> nat \<Rightarrow> cell list \<times> 'g \<Rightarrow> error + cell list \<times> 'g" where
  "mcmc_iter R data \<sigma> i s =
     (case s of (trace_\<mu>, g) \<Rightarrow>
        (case getitem trace_\<mu> (int i - 1) of
           Inl e \<Rightarrow> Inl e
         | Inr None \<Rightarrow>
             (case standard_normal R g of (z, g1) \<Rightarrow>
                (case uniform_rvs R 0 1 g1 of (u, g2) \<Rightarrow>
                   (case setitem trace_\<mu> (int i) None of
                      Inl e \<Rightarrow> Inl e
                    | Inr t \<Rightarrow> Inr (t, g2))))
         | Inr (Some prev_\<mu>) \<Rightarrow>
             (case norm_rvs R prev_\<mu> (1 / 10) g of (proposed_\<mu>, g1) \<Rightarrow>
                (let ratio = mcmc_ratio data \<sigma> proposed_\<mu> prev_\<mu> in
                 if ratio > 1 then
                   (case setitem trace_\<mu> (int i) (Some proposed_\<mu>) of
                      Inl e \<Rightarrow> Inl e
                    | Inr t \<Rightarrow> Inr (t, g1))
                 else
                   (case uniform_rvs R 0 1 g1 of (u, g2) \<Rightarrow>
                      if u > ratio then
                        (case getitem trace_\<mu> (int i - 1) of
                           Inl e \<Rightarrow> Inl e
                         | Inr v \<Rightarrow>
                             (case setitem trace_\<mu> (int i) v of
                                Inl e \<Rightarrow> Inl e
                              | Inr t \<Rightarrow> Inr (t, g2)))
                      else
                        (case setitem trace_\<mu> (int i) (Some proposed_\<mu>) of
                           Inl e \<Rightarrow> Inl e
                         | Inr t \<Rightarrow> Inr (t, g2)))))))"

text \<open>\<^verbatim>\<open>for i in <indices>: <body>\<close>; an exception in the body ends the loop.\<close>

fun mcmc_loop ::
  "'g rng \<Rightarrow> real list \<Rightarrow> real \<Rightarrow> nat list \<Rightarrow> cell list \<times> 'g \<Rightarrow> error + cell list \<times> 'g" where
  "mcmc_loop R data \<sigma> [] s = Inr s"
| "mcmc_loop R data \<sigma> (i # rest) s =
     (case mcmc_iter R data \<sigma> i s of
        Inl e \<Rightarrow> Inl e
      | Inr s' \<Rightarrow> mcmc_loop R data \<sigma> rest s')"

text \<open>
  \<^verbatim>\<open>mcmc(data, \<mu>_0, n_samples)\<close>, started with the random source in state \<open>g\<close>. It
  returns the trace and leaves the source in the state paired with it.
  \<^verbatim>\<open>range(1, n_samples)\<close> is \<open>[1..<nat n_samples]\<close>.
\<close>

definition mcmc :: "'g rng \<Rightarrow> real list \<Rightarrow> real \<Rightarrow> int \<Rightarrow> 'g \<Rightarrow> error + cell list \<times> 'g" where
  "mcmc R data \<mu>_0 n_samples g =
     (let \<sigma> = 3 / 4 in
      case nan_ones n_samples of
        Inl e \<Rightarrow> Inl e
      | Inr trace_\<mu> \<Rightarrow>
          (case setitem trace_\<mu> 0 (Some \<mu>_0) of
             Inl e \<Rightarrow> Inl e
           | Inr trace_\<mu> \<Rightarrow> mcmc_loop R data \<sigma> [1..<nat n_samples] (trace_\<mu>, g)))"

subsection \<open>Observing a run\<close>

text \<open>
  The claims speak of "iteration \<open>i\<close>" of a run. \<open>before_iteration \<dots> i\<close> is the state in
  which the pass at index \<open>i\<close> starts: the loop of \<open>mcmc\<close> run over \<^verbatim>\<open>range(1, i)\<close> only,
  from the trace \<open>mcmc\<close> starts its loop with. At \<open>i = n_samples\<close> it is the state in which
  the loop ends, that is, what \<open>mcmc\<close> returns (lemma \<open>mcmc_eq_before\<close>).
\<close>

definition before_iteration ::
  "'g rng \<Rightarrow> real list \<Rightarrow> real \<Rightarrow> int \<Rightarrow> 'g \<Rightarrow> nat \<Rightarrow> error + cell list \<times> 'g" where
  "before_iteration R data \<mu>_0 n_samples g i =
     mcmc_loop R data (3 / 4) [1..<i] ((replicate (nat n_samples) None)[0 := Some \<mu>_0], g)"

text \<open>
  The update of one iteration as a function of the previous chain value \<open>c\<close>, the state \<open>g\<close>
  of the random source and the function \<open>ratio_of\<close> that gives the acceptance ratio of a
  proposal against the previous value. \<open>metropolis_step\<close> accepts when the ratio exceeds
  \<open>1\<close>, and otherwise draws a uniform variate \<open>u\<close> and accepts exactly when \<open>u\<close> is at most
  the ratio. \<open>metropolis_step_as_stated\<close> is the rule in the words of the specification:
  it accepts exactly when the ratio is greater than \<open>u\<close>.
\<close>

definition metropolis_step ::
  "'g rng \<Rightarrow> (real \<Rightarrow> real \<Rightarrow> real) \<Rightarrow> real \<Rightarrow> 'g \<Rightarrow> real \<times> 'g" where
  "metropolis_step R ratio_of c g =
     (case norm_rvs R c (1 / 10) g of (p, g1) \<Rightarrow>
        if ratio_of p c > 1 then (p, g1)
        else (case uniform_rvs R 0 1 g1 of (u, g2) \<Rightarrow>
                if ratio_of p c \<ge> u then (p, g2) else (c, g2)))"

definition metropolis_step_as_stated ::
  "'g rng \<Rightarrow> (real \<Rightarrow> real \<Rightarrow> real) \<Rightarrow> real \<Rightarrow> 'g \<Rightarrow> real \<times> 'g" where
  "metropolis_step_as_stated R ratio_of c g =
     (case norm_rvs R c (1 / 10) g of (p, g1) \<Rightarrow>
        if ratio_of p c > 1 then (p, g1)
        else (case uniform_rvs R 0 1 g1 of (u, g2) \<Rightarrow>
                if ratio_of p c > u then (p, g2) else (c, g2)))"

text \<open>
  The unnormalised log-posterior in the words of the specification: the sum over all
  observations of the Gaussian log-density with mean \<open>m\<close> and standard deviation \<open>sd\<close>, plus
  the log-density of \<open>m\<close> under the prior, a Gaussian with mean \<open>1\<close> and standard deviation
  \<open>1\<close>.
\<close>

definition log_posterior :: "real list \<Rightarrow> real \<Rightarrow> real \<Rightarrow> real" where
  "log_posterior data sd m = (\<Sum>x\<leftarrow>data. norm_logpdf x m sd) + norm_logpdf m 1 1"

text \<open>
  A substitutable random source for concrete runs: the state is a tape of variates
  prepared in advance, and each draw takes the next one (\<open>0\<close> once the tape is used up).
\<close>

fun pop :: "real list \<Rightarrow> real \<times> real list" where
  "pop [] = (0, [])"
| "pop (x # xs) = (x, xs)"

definition tape_rng :: "real list rng" where
  "tape_rng = \<lparr>standard_normal = pop, random_sample = pop\<rparr>"

text \<open>
  A second source that produces the same variates from a different state: the tape is kept
  in reverse and read from its end.
\<close>

definition pop_back :: "real list \<Rightarrow> real \<times> real list" where
  "pop_back xs = (if xs = [] then (0, []) else (last xs, butlast xs))"

definition rev_tape_rng :: "real list rng" where
  "rev_tape_rng = \<lparr>standard_normal = pop_back, random_sample = pop_back\<rparr>"

section \<open>Properties\<close>

subsection \<open>Array accesses and one pass of the loop body\<close>

lemma getitem_pred:
  "1 \<le> i \<Longrightarrow> i \<le> length a \<Longrightarrow> getitem a (int i - 1) = Inr (a ! (i - 1))"
  by (auto simp: getitem_def nat_diff_distrib')

lemma setitem_nat: "i < length a \<Longrightarrow> setitem a (int i) v = Inr (a[i := v])"
  by (simp add: setitem_def)

lemma mcmc_iter_Some:
  assumes "1 \<le> i" "i < length tr" "tr ! (i - 1) = Some c"
  shows "mcmc_iter R data \<sigma> i (tr, g) =
           Inr (tr[i := Some (fst (metropolis_step R (mcmc_ratio data \<sigma>) c g))],
                snd (metropolis_step R (mcmc_ratio data \<sigma>) c g))"
  using assms
  by (auto simp: mcmc_iter_def metropolis_step_def getitem_pred setitem_nat Let_def
           split: prod.splits)

lemma mcmc_loop_append:
  "mcmc_loop R data \<sigma> (xs @ ys) s =
     (case mcmc_loop R data \<sigma> xs s of Inl e \<Rightarrow> Inl e | Inr s' \<Rightarrow> mcmc_loop R data \<sigma> ys s')"
  by (induction xs arbitrary: s) (auto split: sum.splits)

lemma mcmc_loop_range:
  assumes "1 \<le> a" "b \<le> length tr" "\<forall>j<a. \<exists>c. tr ! j = Some c"
  shows "\<exists>tr' g'. mcmc_loop R data \<sigma> [a..<b] (tr, g) = Inr (tr', g')
           \<and> length tr' = length tr
           \<and> (\<forall>j. j < a \<or> b \<le> j \<longrightarrow> tr' ! j = tr ! j)
           \<and> (\<forall>j. j < a \<or> j < b \<longrightarrow> (\<exists>c. tr' ! j = Some c))"
  using assms
proof (induction b)
  case 0
  then show ?case by simp
next
  case (Suc b)
  show ?case
  proof (cases "a \<le> b")
    case False
    then have "[a..<Suc b] = []" by simp
    with Suc.prems False show ?thesis by (auto simp: less_Suc_eq_le)
  next
    case True
    from Suc.prems have "b \<le> length tr" by simp
    from Suc.IH[OF Suc.prems(1) this Suc.prems(3)]
    obtain t1 g1 where l: "mcmc_loop R data \<sigma> [a..<b] (tr, g) = Inr (t1, g1)"
      and len: "length t1 = length tr"
      and same: "\<forall>j. j < a \<or> b \<le> j \<longrightarrow> t1 ! j = tr ! j"
      and some: "\<forall>j. j < a \<or> j < b \<longrightarrow> (\<exists>c. t1 ! j = Some c)"
      by blast
    from True Suc.prems(1) have b1: "1 \<le> b" by simp
    then have "b - 1 < b" by simp
    with some obtain c where c: "t1 ! (b - 1) = Some c" by blast
    from Suc.prems(2) len have blt: "b < length t1" by simp
    let ?st = "metropolis_step R (mcmc_ratio data \<sigma>) c g1"
    have it: "mcmc_iter R data \<sigma> b (t1, g1) = Inr (t1[b := Some (fst ?st)], snd ?st)"
      by (rule mcmc_iter_Some[OF b1 blt c])
    have "[a..<Suc b] = [a..<b] @ [b]" using True by simp
    then have run: "mcmc_loop R data \<sigma> [a..<Suc b] (tr, g) = Inr (t1[b := Some (fst ?st)], snd ?st)"
      by (simp add: mcmc_loop_append l it)
    have p1: "length (t1[b := Some (fst ?st)]) = length tr" using len by simp
    have p2: "\<forall>j. j < a \<or> Suc b \<le> j \<longrightarrow> (t1[b := Some (fst ?st)]) ! j = tr ! j"
      using same True by auto
    have p3: "\<forall>j. j < a \<or> j < Suc b \<longrightarrow> (\<exists>c. (t1[b := Some (fst ?st)]) ! j = Some c)"
      using some blt by (auto simp: nth_list_update less_Suc_eq)
    from run p1 p2 p3 show ?thesis by blast
  qed
qed

subsection \<open>The state at every iteration\<close>

lemma before_iteration_run:
  assumes "1 \<le> i" "i < m" "m \<le> nat n"
  shows "\<exists>trm gm tr gi c.
           before_iteration R data \<mu>_0 n g m = Inr (trm, gm)
         \<and> length trm = nat n
         \<and> trm ! 0 = Some \<mu>_0
         \<and> before_iteration R data \<mu>_0 n g i = Inr (tr, gi)
         \<and> length tr = nat n
         \<and> trm ! (i - 1) = Some c
         \<and> trm ! i = Some (fst (metropolis_step R (mcmc_ratio data (3 / 4)) c gi))"
proof -
  let ?init = "(replicate (nat n) (None :: cell))[0 := Some \<mu>_0]"
  have len0: "length ?init = nat n" by simp
  have init0: "\<forall>j<1. \<exists>c. ?init ! j = Some c" using assms by auto
  have one: "(1::nat) \<le> 1" by simp
  from assms have ile: "i \<le> length ?init" by simp
  from mcmc_loop_range[OF one ile init0, of R data "3 / 4" g]
  obtain tr gi where l1: "mcmc_loop R data (3 / 4) [1..<i] (?init, g) = Inr (tr, gi)"
    and len1: "length tr = nat n"
    and same1: "\<forall>j. j < 1 \<or> i \<le> j \<longrightarrow> tr ! j = ?init ! j"
    and some1: "\<forall>j. j < 1 \<or> j < i \<longrightarrow> (\<exists>c. tr ! j = Some c)"
    by auto
  from assms have "i - 1 < i" by simp
  with some1 obtain c where c: "tr ! (i - 1) = Some c" by blast
  let ?st = "metropolis_step R (mcmc_ratio data (3 / 4)) c gi"
  let ?t2 = "tr[i := Some (fst ?st)]"
  from assms len1 have ilt: "i < length tr" by simp
  have it: "mcmc_iter R data (3 / 4) i (tr, gi) = Inr (?t2, snd ?st)"
    by (rule mcmc_iter_Some[OF assms(1) ilt c])
  have si: "1 \<le> Suc i" by simp
  from assms len1 have mle: "m \<le> length ?t2" by simp
  have some2: "\<forall>j<Suc i. \<exists>c. ?t2 ! j = Some c"
    using some1 ilt by (auto simp: nth_list_update less_Suc_eq)
  from mcmc_loop_range[OF si mle some2, of R data "3 / 4" "snd ?st"]
  obtain trm gm where l3: "mcmc_loop R data (3 / 4) [Suc i..<m] (?t2, snd ?st) = Inr (trm, gm)"
    and len3: "length trm = length ?t2"
    and same3: "\<forall>j. j < Suc i \<or> m \<le> j \<longrightarrow> trm ! j = ?t2 ! j"
    by blast
  have "[1..<m] = [1..<i] @ [i..<m]"
    using upt_add_eq_append[of 1 i "m - i"] assms by simp
  also have "[i..<m] = i # [Suc i..<m]"
    using assms by (simp add: upt_conv_Cons)
  finally have split: "[1..<m] = [1..<i] @ i # [Suc i..<m]" .
  have "mcmc_loop R data (3 / 4) ([1..<i] @ i # [Suc i..<m]) (?init, g) = Inr (trm, gm)"
    unfolding mcmc_loop_append l1 using it l3 by simp
  then have run: "mcmc_loop R data (3 / 4) [1..<m] (?init, g) = Inr (trm, gm)"
    by (simp only: split)
  have a: "trm ! i = Some (fst ?st)" using same3 ilt by simp
  have b: "trm ! (i - 1) = Some c" using same3 c assms(1) by simp
  have "trm ! 0 = ?t2 ! 0" using same3 by simp
  also have "\<dots> = tr ! 0" using assms(1) by simp
  also have "\<dots> = ?init ! 0" using same1 by simp
  also have "\<dots> = Some \<mu>_0" using assms by simp
  finally have z: "trm ! 0 = Some \<mu>_0" .
  from run l1 len1 len3 a b z show ?thesis
    unfolding before_iteration_def by auto
qed

lemma mcmc_eq_before:
  assumes "1 \<le> n"
  shows "mcmc R data \<mu>_0 n g = before_iteration R data \<mu>_0 n g (nat n)"
  using assms by (simp add: mcmc_def before_iteration_def nan_ones_def setitem_def)

lemma mcmc_total:
  assumes "1 \<le> n"
  shows "\<exists>chain g'. mcmc R data \<mu>_0 n g = Inr (chain, g')
           \<and> length chain = nat n \<and> chain ! 0 = Some \<mu>_0
           \<and> (\<forall>j<nat n. \<exists>c. chain ! j = Some c)"
proof -
  let ?init = "(replicate (nat n) (None :: cell))[0 := Some \<mu>_0]"
  have init0: "\<forall>j<1. \<exists>c. ?init ! j = Some c" using assms by auto
  have one: "(1::nat) \<le> 1" by simp
  have nle: "nat n \<le> length ?init" by simp
  from mcmc_loop_range[OF one nle init0, of R data "3 / 4" g]
  obtain tr g' where l1: "mcmc_loop R data (3 / 4) [1..<nat n] (?init, g) = Inr (tr, g')"
    and len1: "length tr = nat n"
    and same1: "\<forall>j. j < 1 \<or> nat n \<le> j \<longrightarrow> tr ! j = ?init ! j"
    and some1: "\<forall>j. j < 1 \<or> j < nat n \<longrightarrow> (\<exists>c. tr ! j = Some c)"
    by auto
  have "tr ! 0 = Some \<mu>_0" using same1 assms by simp
  with l1 len1 some1 show ?thesis
    unfolding mcmc_eq_before[OF assms] before_iteration_def by auto
qed

lemma mcmc_iteration:
  assumes "1 \<le> i" "i < nat n" "\<forall>p c. mcmc_ratio data (3 / 4) p c = f p c"
  shows "\<exists>chain g' tr gi c.
           mcmc R data \<mu>_0 n g = Inr (chain, g')
         \<and> before_iteration R data \<mu>_0 n g i = Inr (tr, gi)
         \<and> chain ! (i - 1) = Some c
         \<and> chain ! i = Some (fst (metropolis_step R f c gi))"
proof -
  from assms have n: "1 \<le> n" by simp
  from assms(3) have eq: "mcmc_ratio data (3 / 4) = f" by (intro ext) simp
  from before_iteration_run[OF assms(1) assms(2) order_refl, of R data \<mu>_0 g]
  show ?thesis unfolding mcmc_eq_before[OF n] eq by blast
qed

subsection \<open>The ratio, the densities and the observations\<close>

lemma mcmc_ratio_refines:
  "mcmc_ratio data \<sigma> p c = exp (log_posterior data \<sigma> p - log_posterior data \<sigma> c)"
  by (simp add: mcmc_ratio_def log_posterior_def get_log_lik_def get_log_prior_def)

lemma norm_logpdf_ln: "0 < scale \<Longrightarrow> norm_logpdf x loc scale = ln (norm_pdf x loc scale)"
  by (simp add: norm_logpdf_def norm_pdf_def ln_div ln_mult)

lemma mcmc_ratio_empty: "mcmc_ratio [] \<sigma> p c = norm_pdf p 1 1 / norm_pdf c 1 1"
  by (simp add: mcmc_ratio_def get_log_lik_def get_log_prior_def norm_logpdf_def norm_pdf_def
      exp_diff)

text \<open>
  The observations enter a run through the values of \<open>get_log_lik\<close> only: two data sets
  with the same log-likelihood at every candidate mean give the same run.
\<close>

lemma mcmc_iter_cong:
  assumes "\<forall>p c. mcmc_ratio d1 \<sigma> p c = mcmc_ratio d2 \<sigma> p c"
  shows "mcmc_iter R d1 \<sigma> i s = mcmc_iter R d2 \<sigma> i s"
proof -
  have eq: "mcmc_ratio d1 \<sigma> = mcmc_ratio d2 \<sigma>"
    by (intro ext) (simp add: assms)
  show ?thesis unfolding mcmc_iter_def eq by (rule refl)
qed

lemma mcmc_loop_cong:
  assumes "\<forall>p c. mcmc_ratio d1 \<sigma> p c = mcmc_ratio d2 \<sigma> p c"
  shows "mcmc_loop R d1 \<sigma> rest s = mcmc_loop R d2 \<sigma> rest s"
  by (induction rest arbitrary: s) (simp_all add: mcmc_iter_cong[OF assms] split: sum.splits)

lemma mcmc_cong:
  assumes "\<forall>m. get_log_lik d1 \<lparr>par_\<mu> = m, par_\<sigma> = 3 / 4\<rparr> = get_log_lik d2 \<lparr>par_\<mu> = m, par_\<sigma> = 3 / 4\<rparr>"
  shows "mcmc R d1 \<mu>_0 n g = mcmc R d2 \<mu>_0 n g"
proof -
  from assms have "\<forall>p c. mcmc_ratio d1 (3 / 4) p c = mcmc_ratio d2 (3 / 4) p c"
    by (simp add: mcmc_ratio_def)
  then show ?thesis
    by (simp add: mcmc_def mcmc_loop_cong split: sum.splits)
qed

lemma mcmc_iter_sim:
  assumes N: "\<forall>g h. rel g h \<longrightarrow> fst (standard_normal R1 g) = fst (standard_normal R2 h)
                  \<and> rel (snd (standard_normal R1 g)) (snd (standard_normal R2 h))"
    and U: "\<forall>g h. rel g h \<longrightarrow> fst (random_sample R1 g) = fst (random_sample R2 h)
                  \<and> rel (snd (random_sample R1 g)) (snd (random_sample R2 h))"
    and gh: "rel g h"
  shows "(\<exists>e. mcmc_iter R1 data \<sigma> i (tr, g) = Inl e \<and> mcmc_iter R2 data \<sigma> i (tr, h) = Inl e)
       \<or> (\<exists>t g' h'. mcmc_iter R1 data \<sigma> i (tr, g) = Inr (t, g')
              \<and> mcmc_iter R2 data \<sigma> i (tr, h) = Inr (t, h') \<and> rel g' h')"
proof -
  obtain z g1 where a: "standard_normal R1 g = (z, g1)" by (cases "standard_normal R1 g")
  obtain z' h1 where b: "standard_normal R2 h = (z', h1)" by (cases "standard_normal R2 h")
  from N gh a b have zz: "z' = z" and r1: "rel g1 h1" by (metis fst_conv, metis snd_conv)
  obtain u g2 where c: "random_sample R1 g1 = (u, g2)" by (cases "random_sample R1 g1")
  obtain u' h2 where d: "random_sample R2 h1 = (u', h2)" by (cases "random_sample R2 h1")
  from U r1 c d have uu: "u' = u" and r2: "rel g2 h2" by (metis fst_conv, metis snd_conv)
  show ?thesis
    using r1 r2
    by (auto simp: mcmc_iter_def norm_rvs_def uniform_rvs_def Let_def a b c d zz uu
             split: sum.splits option.splits)
qed

lemma mcmc_loop_sim:
  assumes N: "\<forall>g h. rel g h \<longrightarrow> fst (standard_normal R1 g) = fst (standard_normal R2 h)
                  \<and> rel (snd (standard_normal R1 g)) (snd (standard_normal R2 h))"
    and U: "\<forall>g h. rel g h \<longrightarrow> fst (random_sample R1 g) = fst (random_sample R2 h)
                  \<and> rel (snd (random_sample R1 g)) (snd (random_sample R2 h))"
  shows "rel g h \<Longrightarrow>
         (\<exists>e. mcmc_loop R1 data \<sigma> rest (tr, g) = Inl e \<and> mcmc_loop R2 data \<sigma> rest (tr, h) = Inl e)
       \<or> (\<exists>t g' h'. mcmc_loop R1 data \<sigma> rest (tr, g) = Inr (t, g')
              \<and> mcmc_loop R2 data \<sigma> rest (tr, h) = Inr (t, h') \<and> rel g' h')"
proof (induction rest arbitrary: tr g h)
  case Nil
  then show ?case by simp
next
  case (Cons i rest)
  from mcmc_iter_sim[OF N U Cons.prems, of data \<sigma> i tr]
  show ?case
  proof
    assume "\<exists>e. mcmc_iter R1 data \<sigma> i (tr, g) = Inl e \<and> mcmc_iter R2 data \<sigma> i (tr, h) = Inl e"
    then show ?thesis by auto
  next
    assume "\<exists>t g' h'. mcmc_iter R1 data \<sigma> i (tr, g) = Inr (t, g')
              \<and> mcmc_iter R2 data \<sigma> i (tr, h) = Inr (t, h') \<and> rel g' h'"
    then obtain t g' h' where s: "mcmc_iter R1 data \<sigma> i (tr, g) = Inr (t, g')"
      "mcmc_iter R2 data \<sigma> i (tr, h) = Inr (t, h')" "rel g' h'" by blast
    from Cons.IH[OF s(3), of t] s(1,2) show ?thesis by simp
  qed
qed

lemma mcmc_sim:
  assumes N: "\<forall>g h. rel g h \<longrightarrow> fst (standard_normal R1 g) = fst (standard_normal R2 h)
                  \<and> rel (snd (standard_normal R1 g)) (snd (standard_normal R2 h))"
    and U: "\<forall>g h. rel g h \<longrightarrow> fst (random_sample R1 g) = fst (random_sample R2 h)
                  \<and> rel (snd (random_sample R1 g)) (snd (random_sample R2 h))"
    and gh: "rel g h"
  shows "map_sum id fst (mcmc R1 data \<mu>_0 n g) = map_sum id fst (mcmc R2 data \<mu>_0 n h)"
proof -
  have "map_sum id fst (mcmc_loop R1 data \<sigma> rest (tr, g))
      = map_sum id fst (mcmc_loop R2 data \<sigma> rest (tr, h))" for \<sigma> rest tr
    using mcmc_loop_sim[OF N U gh, of data \<sigma> rest tr] by auto
  then show ?thesis
    by (auto simp: mcmc_def Let_def split: sum.splits)
qed

subsection \<open>Concrete runs\<close>

lemma tape_rng_simps [simp]:
  "standard_normal tape_rng = pop" "random_sample tape_rng = pop"
  by (simp_all add: tape_rng_def)

lemma rev_tape_rng_simps [simp]:
  "standard_normal rev_tape_rng = pop_back" "random_sample rev_tape_rng = pop_back"
  by (simp_all add: rev_tape_rng_def)

lemma pop_back_rev:
  "fst (pop g) = fst (pop_back (rev g)) \<and> snd (pop_back (rev g)) = rev (snd (pop g))"
  by (cases g) (simp_all add: pop_back_def)

lemma upt_1_2: "[Suc 0..<2] = [Suc 0]"
  by (simp add: upt_conv_Cons)

lemma replicate_2: "replicate 2 x = [x, x]"
  by (simp add: numeral_2_eq_2)

lemma ratio_2_1: "mcmc_ratio [] (3 / 4) 2 1 = exp (- (1 / 2))"
  by (simp add: mcmc_ratio_def get_log_lik_def get_log_prior_def norm_logpdf_def)

section \<open>The claims\<close>

text \<open>
  In the statements below, \<open>chain\<close> is the trace that \<open>mcmc\<close> returns, \<open>(tr, gi)\<close> the state
  in which iteration \<open>i\<close> starts and \<open>c\<close> the previous chain value \<^verbatim>\<open>trace_\<mu>[i-1]\<close>. The
  loop runs the indices \<open>1 \<le> i < n_samples\<close>.
\<close>

subsection \<open>C1\<close>

text \<open>
  C1: at every iteration, if the acceptance ratio exceeds \<open>1\<close> the proposal is accepted;
  otherwise a uniform variate of \<open>[0, 1)\<close> is drawn and the proposal is accepted exactly
  when the ratio exceeds the variate, the previous chain value being retained otherwise.
  The notebook describes the sampler in the same words ("jump to new location if the
  ratio is greater than \<open>\<gamma>\<close>, otherwise stay in current location"), and
  \<open>metropolis_step_as_stated\<close> is that rule. The loop body tests \<^verbatim>\<open>uniform > ratio\<close> and
  retains the previous value in that branch only, so it accepts a proposal whose ratio
  does not exceed the variate when the two are equal. The theorem runs the code on such an
  input: no observations, initial mean \<open>1\<close> (the prior mean), sample count \<open>2\<close>, a standard
  normal variate \<open>10\<close>, which makes the proposal \<open>2\<close> and the ratio \<open>exp (- 1/2)\<close>, and a
  uniform variate equal to that ratio. The ratio exceeds neither \<open>1\<close> nor the variate,
  the rule as stated keeps the value \<open>1\<close>, and the chain returned is \<open>[1, 2]\<close>.
\<close>

theorem mcmc_accepts_on_tie:
  "mcmc tape_rng [] 1 2 [10, exp (- (1 / 2))] = Inr ([Some 1, Some 2], [])
   \<and> before_iteration tape_rng [] 1 2 [10, exp (- (1 / 2))] 1
       = Inr ([Some 1, None], [10, exp (- (1 / 2))])
   \<and> norm_rvs tape_rng 1 (1 / 10) [10, exp (- (1 / 2))] = (2, [exp (- (1 / 2))])
   \<and> uniform_rvs tape_rng 0 1 [exp (- (1 / 2))] = (exp (- (1 / 2)), [])
   \<and> 0 \<le> exp (- (1 / 2) :: real) \<and> exp (- (1 / 2) :: real) < 1
   \<and> \<not> mcmc_ratio [] (3 / 4) 2 1 > 1
   \<and> \<not> mcmc_ratio [] (3 / 4) 2 1 > exp (- (1 / 2))
   \<and> fst (metropolis_step_as_stated tape_rng (mcmc_ratio [] (3 / 4)) 1 [10, exp (- (1 / 2))]) = 1
   \<and> [Some 1, Some 2] ! 1
       \<noteq> Some (fst (metropolis_step_as_stated tape_rng (mcmc_ratio [] (3 / 4)) 1 [10, exp (- (1 / 2))]))"
proof -
  have nr: "norm_rvs tape_rng 1 (1 / 10) [10, exp (- (1 / 2))] = (2, [exp (- (1 / 2))])"
    by (simp add: norm_rvs_def)
  have ur: "uniform_rvs tape_rng 0 1 [exp (- (1 / 2))] = (exp (- (1 / 2)), [])"
    by (simp add: uniform_rvs_def)
  have it: "mcmc_iter tape_rng [] (3 / 4) (Suc 0) ([Some 1, None], [10, exp (- (1 / 2))])
              = Inr ([Some 1, Some 2], [])"
    by (simp add: mcmc_iter_def getitem_def setitem_def nr ur ratio_2_1)
  have m: "mcmc tape_rng [] 1 2 [10, exp (- (1 / 2))] = Inr ([Some 1, Some 2], [])"
    by (simp add: mcmc_def nan_ones_def setitem_def upt_1_2 replicate_2 it)
  have b: "before_iteration tape_rng [] 1 2 [10, exp (- (1 / 2))] 1
       = Inr ([Some 1, None], [10, exp (- (1 / 2))])"
    by (simp add: before_iteration_def replicate_2)
  have s: "fst (metropolis_step_as_stated tape_rng (mcmc_ratio [] (3 / 4)) 1 [10, exp (- (1 / 2))]) = 1"
    by (simp add: metropolis_step_as_stated_def nr ur ratio_2_1)
  show ?thesis
    unfolding m b nr ur s by (simp add: ratio_2_1)
qed

subsection \<open>C2\<close>

text \<open>
  C2: at every iteration the acceptance ratio is the exponential of
  \<open>L(proposed) - L(previous)\<close>, where \<open>L(m)\<close> is the sum over all observations of the
  Gaussian log-density with mean \<open>m\<close> and the fixed observation standard deviation, plus
  the Gaussian log-prior density of \<open>m\<close>: chain entry \<open>i\<close> is the outcome of the update
  taken with exactly this ratio.
\<close>

theorem mcmc_ratio_log_posterior_difference:
  assumes "1 \<le> i" "i < nat n_samples"
  shows "\<exists>chain g' tr gi c.
           mcmc R data \<mu>_0 n_samples g = Inr (chain, g')
         \<and> before_iteration R data \<mu>_0 n_samples g i = Inr (tr, gi)
         \<and> chain ! (i - 1) = Some c
         \<and> mcmc_ratio data (3 / 4) (fst (norm_rvs R c (1 / 10) gi)) c
             = exp (log_posterior data (3 / 4) (fst (norm_rvs R c (1 / 10) gi))
                    - log_posterior data (3 / 4) c)
         \<and> chain ! i = Some (fst (metropolis_step R
              (\<lambda>p c. exp (log_posterior data (3 / 4) p - log_posterior data (3 / 4) c)) c gi))"
proof -
  let ?f = "\<lambda>p c. exp (log_posterior data (3 / 4) p - log_posterior data (3 / 4) c)"
  have e: "\<forall>p c. mcmc_ratio data (3 / 4) p c = ?f p c"
    by (simp add: mcmc_ratio_refines)
  from mcmc_iteration[OF assms e, of R \<mu>_0 g]
  obtain chain g' tr gi c where
    m: "mcmc R data \<mu>_0 n_samples g = Inr (chain, g')"
    and b: "before_iteration R data \<mu>_0 n_samples g i = Inr (tr, gi)"
    and p: "chain ! (i - 1) = Some c"
    and s: "chain ! i = Some (fst (metropolis_step R ?f c gi))"
    by blast
  from e have r: "mcmc_ratio data (3 / 4) (fst (norm_rvs R c (1 / 10) gi)) c
             = ?f (fst (norm_rvs R c (1 / 10) gi)) c" by blast
  show ?thesis
    by (intro exI[of _ chain] exI[of _ g'] exI[of _ tr] exI[of _ gi] exI[of _ c] conjI)
       (rule m b p r s)+
qed

theorem mcmc_ratio_log_posterior_difference_witness:
  "(1::nat) \<le> 2 \<and> 2 < nat 3 \<and>
   (\<exists>chain g' tr gi c.
           mcmc tape_rng [1 / 2, 3 / 2] (1 / 2) 3 [1, 1 / 2, - 1, 1 / 4] = Inr (chain, g')
         \<and> before_iteration tape_rng [1 / 2, 3 / 2] (1 / 2) 3 [1, 1 / 2, - 1, 1 / 4] 2 = Inr (tr, gi)
         \<and> chain ! (2 - 1) = Some c
         \<and> mcmc_ratio [1 / 2, 3 / 2] (3 / 4) (fst (norm_rvs tape_rng c (1 / 10) gi)) c
             = exp (log_posterior [1 / 2, 3 / 2] (3 / 4) (fst (norm_rvs tape_rng c (1 / 10) gi))
                    - log_posterior [1 / 2, 3 / 2] (3 / 4) c)
         \<and> chain ! 2 = Some (fst (metropolis_step tape_rng
              (\<lambda>p c. exp (log_posterior [1 / 2, 3 / 2] (3 / 4) p - log_posterior [1 / 2, 3 / 2] (3 / 4) c)) c gi)))"
  using mcmc_ratio_log_posterior_difference[of 2 3 tape_rng "[1 / 2, 3 / 2]" "1 / 2" "[1, 1 / 2, - 1, 1 / 4]"]
  by simp

subsection \<open>C3\<close>

text \<open>
  C3: for every observation sequence, every initial mean and every integer
  \<open>n_samples \<ge> 1\<close>, the sampler returns (it raises nothing) and the chain it returns has
  length exactly \<open>n_samples\<close>.
\<close>

theorem mcmc_length:
  assumes "1 \<le> n_samples"
  shows "\<exists>chain g'. mcmc R data \<mu>_0 n_samples g = Inr (chain, g')
           \<and> int (length chain) = n_samples"
  using mcmc_total[OF assms, of R data \<mu>_0 g] assms by auto

theorem mcmc_length_witness:
  "(1::int) \<le> 3 \<and>
   (\<exists>chain g'. mcmc tape_rng [1 / 2, 3 / 2] (1 / 2) 3 [1, 1 / 2, - 1, 1 / 4] = Inr (chain, g')
           \<and> int (length chain) = 3)"
  using mcmc_length[of 3 tape_rng "[1 / 2, 3 / 2]" "1 / 2" "[1, 1 / 2, - 1, 1 / 4]"]
  by simp

subsection \<open>C4\<close>

text \<open>
  C4: for every invocation with \<open>n_samples \<ge> 1\<close>, entry \<open>0\<close> of the returned chain is the
  supplied initial mean.
\<close>

theorem mcmc_first_entry:
  assumes "1 \<le> n_samples"
  shows "\<exists>chain g'. mcmc R data \<mu>_0 n_samples g = Inr (chain, g')
           \<and> getitem chain 0 = Inr (Some \<mu>_0)"
proof -
  from mcmc_total[OF assms, of R data \<mu>_0 g]
  obtain chain g' where m: "mcmc R data \<mu>_0 n_samples g = Inr (chain, g')"
    and l: "length chain = nat n_samples" and z: "chain ! 0 = Some \<mu>_0" by blast
  from l assms have "getitem chain 0 = Inr (chain ! 0)" by (simp add: getitem_def)
  with m z show ?thesis by simp
qed

theorem mcmc_first_entry_witness:
  "(1::int) \<le> 1 \<and>
   (\<exists>chain g'. mcmc tape_rng [1 / 2, 3 / 2] (1 / 2) 1 [1, 1 / 2, - 1, 1 / 4] = Inr (chain, g')
           \<and> getitem chain 0 = Inr (Some (1 / 2)))"
  using mcmc_first_entry[of 1 tape_rng "[1 / 2, 3 / 2]" "1 / 2" "[1, 1 / 2, - 1, 1 / 4]"]
  by simp

subsection \<open>C5\<close>

text \<open>
  C5: for every \<open>i\<close> from \<open>1\<close> to \<open>n_samples - 1\<close>, chain entry \<open>i\<close> is either identical to
  chain entry \<open>i - 1\<close> or equal to the value drawn from the proposal distribution at
  iteration \<open>i\<close>, and never anything else. It is an invariant of the loop: it holds of the
  trace \<open>trm\<close> at the start of every iteration \<open>m\<close> for all entries written so far, and of
  the returned chain (the case \<open>m = n_samples\<close>).
\<close>

theorem mcmc_entry_previous_or_proposal:
  assumes "1 \<le> i" "i < m" "m \<le> nat n_samples"
  shows "\<exists>trm gm tr gi c.
           before_iteration R data \<mu>_0 n_samples g m = Inr (trm, gm)
         \<and> (m = nat n_samples \<longrightarrow> mcmc R data \<mu>_0 n_samples g = Inr (trm, gm))
         \<and> before_iteration R data \<mu>_0 n_samples g i = Inr (tr, gi)
         \<and> trm ! (i - 1) = Some c
         \<and> (trm ! i = trm ! (i - 1) \<or> trm ! i = Some (fst (norm_rvs R c (1 / 10) gi)))"
proof -
  from assms have n: "1 \<le> n_samples" by simp
  from before_iteration_run[OF assms, of R data \<mu>_0 g]
  obtain trm gm tr gi c where
    r: "before_iteration R data \<mu>_0 n_samples g m = Inr (trm, gm)"
    and b: "before_iteration R data \<mu>_0 n_samples g i = Inr (tr, gi)"
    and p: "trm ! (i - 1) = Some c"
    and s: "trm ! i = Some (fst (metropolis_step R (mcmc_ratio data (3 / 4)) c gi))"
    by blast
  have "fst (metropolis_step R (mcmc_ratio data (3 / 4)) c gi) = c
      \<or> fst (metropolis_step R (mcmc_ratio data (3 / 4)) c gi) = fst (norm_rvs R c (1 / 10) gi)"
    by (auto simp: metropolis_step_def split: prod.splits)
  with s p have d: "trm ! i = trm ! (i - 1) \<or> trm ! i = Some (fst (norm_rvs R c (1 / 10) gi))"
    by auto
  have e: "m = nat n_samples \<longrightarrow> mcmc R data \<mu>_0 n_samples g = Inr (trm, gm)"
    using r mcmc_eq_before[OF n, of R data \<mu>_0 g] by auto
  from r e b p d show ?thesis by blast
qed

theorem mcmc_entry_previous_or_proposal_witness:
  "(1::nat) \<le> 2 \<and> (2::nat) < 3 \<and> 3 \<le> nat 3 \<and>
   (\<exists>trm gm tr gi c.
           before_iteration tape_rng [1 / 2, 3 / 2] (1 / 2) 3 [1, 1 / 2, - 1, 1 / 4] 3 = Inr (trm, gm)
         \<and> mcmc tape_rng [1 / 2, 3 / 2] (1 / 2) 3 [1, 1 / 2, - 1, 1 / 4] = Inr (trm, gm)
         \<and> before_iteration tape_rng [1 / 2, 3 / 2] (1 / 2) 3 [1, 1 / 2, - 1, 1 / 4] 2 = Inr (tr, gi)
         \<and> trm ! (2 - 1) = Some c
         \<and> (trm ! 2 = trm ! (2 - 1) \<or> trm ! 2 = Some (fst (norm_rvs tape_rng c (1 / 10) gi))))"
  using mcmc_entry_previous_or_proposal[of 2 3 3 tape_rng "[1 / 2, 3 / 2]" "1 / 2" "[1, 1 / 2, - 1, 1 / 4]"]
  by simp

subsection \<open>C6\<close>

text \<open>
  C6: two invocations with identical observations, identical initial mean, identical
  sample count and identically seeded random sources return chains that are equal element
  for element. The two sources may be different objects \<open>R1\<close> and \<open>R2\<close>, over different
  state types: "identically seeded" means that their states \<open>g\<close> and \<open>h\<close> are related by a
  relation under which both kinds of draw give the same variate and related next states.
  The results compared are the exception raised or the chain returned.
\<close>

theorem mcmc_deterministic:
  assumes "\<forall>g h. rel g h \<longrightarrow> fst (standard_normal R1 g) = fst (standard_normal R2 h)
                  \<and> rel (snd (standard_normal R1 g)) (snd (standard_normal R2 h))"
    and "\<forall>g h. rel g h \<longrightarrow> fst (random_sample R1 g) = fst (random_sample R2 h)
                  \<and> rel (snd (random_sample R1 g)) (snd (random_sample R2 h))"
    and "rel g h"
    and "data1 = data2" "\<mu>1 = \<mu>2" "n1 = n2"
  shows "map_sum id fst (mcmc R1 data1 \<mu>1 n1 g) = map_sum id fst (mcmc R2 data2 \<mu>2 n2 h)"
  using mcmc_sim[OF assms(1) assms(2) assms(3)] assms(4,5,6) by simp

theorem mcmc_deterministic_witness:
  "map_sum id fst (mcmc tape_rng [1 / 2, 3 / 2] (1 / 2) 3 [1, 1 / 2, - 1, 1 / 4])
     = map_sum id fst (mcmc rev_tape_rng [1 / 2, 3 / 2] (1 / 2) 3 [1 / 4, - 1, 1 / 2, 1])"
proof -
  let ?rel = "\<lambda>g h. h = rev g"
  have n: "\<forall>g h. ?rel g h \<longrightarrow>
             fst (standard_normal tape_rng g) = fst (standard_normal rev_tape_rng h)
           \<and> ?rel (snd (standard_normal tape_rng g)) (snd (standard_normal rev_tape_rng h))"
    using pop_back_rev by simp
  have u: "\<forall>g h. ?rel g h \<longrightarrow>
             fst (random_sample tape_rng g) = fst (random_sample rev_tape_rng h)
           \<and> ?rel (snd (random_sample tape_rng g)) (snd (random_sample rev_tape_rng h))"
    using pop_back_rev by simp
  have s: "?rel [1, 1 / 2, - 1, 1 / 4] [1 / 4, - 1, 1 / 2, 1]" by simp
  show ?thesis
    by (rule mcmc_deterministic[of ?rel tape_rng rev_tape_rng, OF n u s refl refl refl])
qed

subsection \<open>C7\<close>

text \<open>
  C7: when the observation sequence is empty, the log-likelihood term is zero for every
  candidate mean, and at every iteration the acceptance ratio is the ratio of the Gaussian
  prior densities of the proposed and the previous mean; chain entry \<open>i\<close> is the outcome
  of the update taken with that ratio. The equality of the ratio with the quotient of
  densities is one of real numbers.
\<close>

theorem mcmc_empty_data_prior_only:
  assumes "1 \<le> i" "i < nat n_samples"
  shows "(\<forall>param_dict. get_log_lik [] param_dict = 0)
       \<and> (\<exists>chain g' tr gi c.
           mcmc R [] \<mu>_0 n_samples g = Inr (chain, g')
         \<and> before_iteration R [] \<mu>_0 n_samples g i = Inr (tr, gi)
         \<and> chain ! (i - 1) = Some c
         \<and> (\<forall>p. mcmc_ratio [] (3 / 4) p c = norm_pdf p 1 1 / norm_pdf c 1 1)
         \<and> chain ! i = Some (fst (metropolis_step R
              (\<lambda>p c. norm_pdf p 1 1 / norm_pdf c 1 1) c gi)))"
proof -
  have a: "\<forall>param_dict. get_log_lik [] param_dict = 0" by (simp add: get_log_lik_def)
  have b: "\<forall>p c. mcmc_ratio [] (3 / 4) p c = norm_pdf p 1 1 / norm_pdf c 1 1"
    by (simp add: mcmc_ratio_empty)
  from mcmc_iteration[OF assms b, of R \<mu>_0 g] a b show ?thesis by blast
qed

theorem mcmc_empty_data_prior_only_witness:
  "(1::nat) \<le> 2 \<and> 2 < nat 3 \<and>
   (\<forall>param_dict. get_log_lik [] param_dict = 0)
       \<and> (\<exists>chain g' tr gi c.
           mcmc tape_rng [] (1 / 2) 3 [1, 1 / 2, - 1, 1 / 4] = Inr (chain, g')
         \<and> before_iteration tape_rng [] (1 / 2) 3 [1, 1 / 2, - 1, 1 / 4] 2 = Inr (tr, gi)
         \<and> chain ! (2 - 1) = Some c
         \<and> (\<forall>p. mcmc_ratio [] (3 / 4) p c = norm_pdf p 1 1 / norm_pdf c 1 1)
         \<and> chain ! 2 = Some (fst (metropolis_step tape_rng
              (\<lambda>p c. norm_pdf p 1 1 / norm_pdf c 1 1) c gi)))"
  using mcmc_empty_data_prior_only[of 2 3 tape_rng "1 / 2" "[1, 1 / 2, - 1, 1 / 4]"]
  by simp

subsection \<open>C8\<close>

text \<open>
  C8: throughout a run, every likelihood evaluation, at the proposed and at the current
  point of every iteration, uses the same standard deviation \<open>0.75\<close>. The state that the
  loop passes from one iteration to the next is the trace and the random source only, so
  nothing in the loop can change the standard deviation; the theorem shows both parameter
  dictionaries of every iteration with \<open>\<sigma> = 3/4\<close>.
\<close>

theorem mcmc_fixed_sigma:
  assumes "1 \<le> i" "i < nat n_samples"
  shows "\<exists>chain g' tr gi c.
           mcmc R data \<mu>_0 n_samples g = Inr (chain, g')
         \<and> before_iteration R data \<mu>_0 n_samples g i = Inr (tr, gi)
         \<and> chain ! (i - 1) = Some c
         \<and> mcmc_ratio data (3 / 4) (fst (norm_rvs R c (1 / 10) gi)) c
             = (\<lambda>p c. exp ((get_log_lik data \<lparr>par_\<mu> = p, par_\<sigma> = 3 / 4\<rparr>
                     + get_log_prior \<lparr>par_\<mu> = p, par_\<sigma> = 3 / 4\<rparr> 1 1)
                  - (get_log_lik data \<lparr>par_\<mu> = c, par_\<sigma> = 3 / 4\<rparr>
                     + get_log_prior \<lparr>par_\<mu> = c, par_\<sigma> = 3 / 4\<rparr> 1 1)))
               (fst (norm_rvs R c (1 / 10) gi)) c
         \<and> chain ! i = Some (fst (metropolis_step R
              (\<lambda>p c. exp ((get_log_lik data \<lparr>par_\<mu> = p, par_\<sigma> = 3 / 4\<rparr>
                     + get_log_prior \<lparr>par_\<mu> = p, par_\<sigma> = 3 / 4\<rparr> 1 1)
                  - (get_log_lik data \<lparr>par_\<mu> = c, par_\<sigma> = 3 / 4\<rparr>
                     + get_log_prior \<lparr>par_\<mu> = c, par_\<sigma> = 3 / 4\<rparr> 1 1))) c gi))"
proof -
  let ?f = "\<lambda>p c. exp ((get_log_lik data \<lparr>par_\<mu> = p, par_\<sigma> = 3 / 4\<rparr>
                     + get_log_prior \<lparr>par_\<mu> = p, par_\<sigma> = 3 / 4\<rparr> 1 1)
                  - (get_log_lik data \<lparr>par_\<mu> = c, par_\<sigma> = 3 / 4\<rparr>
                     + get_log_prior \<lparr>par_\<mu> = c, par_\<sigma> = 3 / 4\<rparr> 1 1))"
  have e: "\<forall>p c. mcmc_ratio data (3 / 4) p c = ?f p c"
    by (simp add: mcmc_ratio_def Let_def)
  from mcmc_iteration[OF assms e, of R \<mu>_0 g]
  obtain chain g' tr gi c where
    m: "mcmc R data \<mu>_0 n_samples g = Inr (chain, g')"
    and b: "before_iteration R data \<mu>_0 n_samples g i = Inr (tr, gi)"
    and p: "chain ! (i - 1) = Some c"
    and s: "chain ! i = Some (fst (metropolis_step R ?f c gi))"
    by blast
  from e have r: "mcmc_ratio data (3 / 4) (fst (norm_rvs R c (1 / 10) gi)) c
             = ?f (fst (norm_rvs R c (1 / 10) gi)) c" by blast
  show ?thesis
    by (intro exI[of _ chain] exI[of _ g'] exI[of _ tr] exI[of _ gi] exI[of _ c] conjI)
       (rule m b p r s)+
qed

theorem mcmc_fixed_sigma_witness:
  "(1::nat) \<le> 2 \<and> 2 < nat 3 \<and>
   (\<exists>chain g' tr gi c.
           mcmc tape_rng [1 / 2, 3 / 2] (1 / 2) 3 [1, 1 / 2, - 1, 1 / 4] = Inr (chain, g')
         \<and> before_iteration tape_rng [1 / 2, 3 / 2] (1 / 2) 3 [1, 1 / 2, - 1, 1 / 4] 2 = Inr (tr, gi)
         \<and> chain ! (2 - 1) = Some c
         \<and> mcmc_ratio [1 / 2, 3 / 2] (3 / 4) (fst (norm_rvs tape_rng c (1 / 10) gi)) c
             = (\<lambda>p c. exp ((get_log_lik [1 / 2, 3 / 2] \<lparr>par_\<mu> = p, par_\<sigma> = 3 / 4\<rparr>
                     + get_log_prior \<lparr>par_\<mu> = p, par_\<sigma> = 3 / 4\<rparr> 1 1)
                  - (get_log_lik [1 / 2, 3 / 2] \<lparr>par_\<mu> = c, par_\<sigma> = 3 / 4\<rparr>
                     + get_log_prior \<lparr>par_\<mu> = c, par_\<sigma> = 3 / 4\<rparr> 1 1)))
               (fst (norm_rvs tape_rng c (1 / 10) gi)) c
         \<and> chain ! 2 = Some (fst (metropolis_step tape_rng
              (\<lambda>p c. exp ((get_log_lik [1 / 2, 3 / 2] \<lparr>par_\<mu> = p, par_\<sigma> = 3 / 4\<rparr>
                     + get_log_prior \<lparr>par_\<mu> = p, par_\<sigma> = 3 / 4\<rparr> 1 1)
                  - (get_log_lik [1 / 2, 3 / 2] \<lparr>par_\<mu> = c, par_\<sigma> = 3 / 4\<rparr>
                     + get_log_prior \<lparr>par_\<mu> = c, par_\<sigma> = 3 / 4\<rparr> 1 1))) c gi)))"
  using mcmc_fixed_sigma[of 2 3 tape_rng "[1 / 2, 3 / 2]" "1 / 2" "[1, 1 / 2, - 1, 1 / 4]"]
  by simp

subsection \<open>C9\<close>

text \<open>
  C9: with \<open>n_samples = 0\<close> the sampler does not return an empty chain: the write of the
  initial mean to entry \<open>0\<close> of a trace of length zero is out of bounds and the call fails
  with IndexError. With \<open>n_samples \<ge> 1\<close> the call raises nothing, and every write of the
  run (to entry \<open>0\<close>, then to entry \<open>i\<close> in iteration \<open>i\<close>) is within bounds, whatever value
  is written.
\<close>

theorem mcmc_zero_samples_index_error:
  "mcmc R data \<mu>_0 0 g = Inl IndexError
   \<and> (1 \<le> n_samples \<longrightarrow>
        (\<forall>e. mcmc R data \<mu>_0 n_samples g \<noteq> Inl e)
      \<and> (\<exists>t. nan_ones n_samples = Inr t \<and> (\<forall>v. setitem t 0 v \<noteq> Inl IndexError))
      \<and> (\<forall>i v. 1 \<le> i \<and> i < nat n_samples \<longrightarrow>
            (\<exists>tr gi. before_iteration R data \<mu>_0 n_samples g i = Inr (tr, gi)
               \<and> setitem tr (int i) v \<noteq> Inl IndexError)))"
proof -
  have z: "mcmc R data \<mu>_0 0 g = Inl IndexError"
    by (simp add: mcmc_def nan_ones_def setitem_def)
  have p: "(\<forall>e. mcmc R data \<mu>_0 n_samples g \<noteq> Inl e)
      \<and> (\<exists>t. nan_ones n_samples = Inr t \<and> (\<forall>v. setitem t 0 v \<noteq> Inl IndexError))
      \<and> (\<forall>i v. 1 \<le> i \<and> i < nat n_samples \<longrightarrow>
            (\<exists>tr gi. before_iteration R data \<mu>_0 n_samples g i = Inr (tr, gi)
               \<and> setitem tr (int i) v \<noteq> Inl IndexError))" if n: "1 \<le> n_samples"
  proof (intro conjI allI impI)
    fix e
    from mcmc_total[OF n, of R data \<mu>_0 g] show "mcmc R data \<mu>_0 n_samples g \<noteq> Inl e" by auto
  next
    from n show "\<exists>t. nan_ones n_samples = Inr t \<and> (\<forall>v. setitem t 0 v \<noteq> Inl IndexError)"
      by (simp add: nan_ones_def setitem_def)
  next
    fix i v assume i: "1 \<le> i \<and> i < nat n_samples"
    then have i1: "1 \<le> i" and i2: "i < nat n_samples" by simp_all
    from before_iteration_run[OF i1 i2 order_refl, of R data \<mu>_0 g]
    obtain tr gi where b: "before_iteration R data \<mu>_0 n_samples g i = Inr (tr, gi)"
      and l: "length tr = nat n_samples" by blast
    from l i2 have "setitem tr (int i) v \<noteq> Inl IndexError" by (simp add: setitem_nat)
    with b show "\<exists>tr gi. before_iteration R data \<mu>_0 n_samples g i = Inr (tr, gi)
               \<and> setitem tr (int i) v \<noteq> Inl IndexError" by blast
  qed
  from z p show ?thesis by blast
qed

theorem mcmc_zero_samples_index_error_witness:
  "mcmc tape_rng [1 / 2, 3 / 2] (1 / 2) 0 [1, 1 / 2, - 1, 1 / 4] = Inl IndexError
   \<and> (1::int) \<le> 3
   \<and> mcmc tape_rng [1 / 2, 3 / 2] (1 / 2) 3 [1, 1 / 2, - 1, 1 / 4] \<noteq> Inl IndexError
   \<and> (\<exists>t. nan_ones 3 = Inr t \<and> setitem t 0 (Some (1 / 2)) \<noteq> Inl IndexError)
   \<and> (1::nat) \<le> 2 \<and> 2 < nat 3
   \<and> (\<exists>tr gi. before_iteration tape_rng [1 / 2, 3 / 2] (1 / 2) 3 [1, 1 / 2, - 1, 1 / 4] 2 = Inr (tr, gi)
               \<and> setitem tr (int 2) None \<noteq> Inl IndexError)"
proof -
  have h: "(1::int) \<le> 3" by simp
  have k: "(1::nat) \<le> 2 \<and> 2 < nat 3" by simp
  from mcmc_zero_samples_index_error[of tape_rng "[1 / 2, 3 / 2]" "1 / 2" "[1, 1 / 2, - 1, 1 / 4]" 3]
    h k
  show ?thesis by blast
qed

end
